theory Spec2Isabelle
  imports Main "HOL-Library.Word" "HOL-Library.Multiset"
begin

unbundle bit_operations_syntax

section \<open>Literal values\<close>

text \<open>
  Modelled from the spec: the literal kinds are declared outside utils.go, which only
  uses the interface \<open>Literal\<close> and the byte-slice types \<open>BinaryLiteral\<close> and
  \<open>FixedLiteral\<close>. Section 3 of the specification lists the kinds with their payloads:
  Boolean, Int32, Int64, Float32, Float64, String, Binary, Fixed, Date (32 bits), Time,
  Timestamp, TimestampTz (64 bits) and UUID (16 bytes). The payload of a float kind is
  kept as its IEEE-754 bit pattern. A nil \<open>Literal\<close> is not a literal value and is never
  passed to the set.
\<close>

type_synonym byte = "8 word"

datatype literal =
    BoolLiteral bool
  | Int32Literal "32 word"
  | Int64Literal "64 word"
  | Float32Literal "32 word"
  | Float64Literal "64 word"
  | StringLiteral string
  | BinaryLiteral "byte list"
  | FixedLiteral "byte list"
  | DateLiteral "32 word"
  | TimeLiteral "64 word"
  | TimestampLiteral "64 word"
  | TimestampTzLiteral "64 word"
  | UUIDLiteral "byte list"

text \<open>
  Go's \<open>==\<close> on floats, read off the bit patterns: a NaN (exponent all ones, fraction
  not zero) is equal to nothing, not even to itself, and the two zeros are equal.
\<close>

definition isNaN32 :: "32 word \<Rightarrow> bool" where
  "isNaN32 w = (0x7F800000 < (w AND 0x7FFFFFFF))"

definition isZero32 :: "32 word \<Rightarrow> bool" where
  "isZero32 w = (w AND 0x7FFFFFFF = 0)"

definition float32_eq :: "32 word \<Rightarrow> 32 word \<Rightarrow> bool" where
  "float32_eq a b = (\<not> isNaN32 a \<and> \<not> isNaN32 b \<and> (a = b \<or> (isZero32 a \<and> isZero32 b)))"

definition isNaN64 :: "64 word \<Rightarrow> bool" where
  "isNaN64 w = (0x7FF0000000000000 < (w AND 0x7FFFFFFFFFFFFFFF))"

definition isZero64 :: "64 word \<Rightarrow> bool" where
  "isZero64 w = (w AND 0x7FFFFFFFFFFFFFFF = 0)"

definition float64_eq :: "64 word \<Rightarrow> 64 word \<Rightarrow> bool" where
  "float64_eq a b = (\<not> isNaN64 a \<and> \<not> isNaN64 b \<and> (a = b \<or> (isZero64 a \<and> isZero64 b)))"

text \<open>
  Modelled from the spec: \<open>Literal.Equals\<close> is declared outside utils.go. By section 4.1
  of the specification it is true only for two literals of the same kind with the same
  payload, and false, never an error, across kinds. Payloads are compared as Go compares
  them: \<open>==\<close> on scalars, strings and the UUID array, the bytes of Binary and Fixed one
  by one.
\<close>

fun Equals :: "literal \<Rightarrow> literal \<Rightarrow> bool" where
  "Equals (BoolLiteral a) other = (case other of BoolLiteral b \<Rightarrow> a = b | _ \<Rightarrow> False)"
| "Equals (Int32Literal a) other = (case other of Int32Literal b \<Rightarrow> a = b | _ \<Rightarrow> False)"
| "Equals (Int64Literal a) other = (case other of Int64Literal b \<Rightarrow> a = b | _ \<Rightarrow> False)"
| "Equals (Float32Literal a) other = (case other of Float32Literal b \<Rightarrow> float32_eq a b | _ \<Rightarrow> False)"
| "Equals (Float64Literal a) other = (case other of Float64Literal b \<Rightarrow> float64_eq a b | _ \<Rightarrow> False)"
| "Equals (StringLiteral a) other = (case other of StringLiteral b \<Rightarrow> a = b | _ \<Rightarrow> False)"
| "Equals (BinaryLiteral a) other = (case other of BinaryLiteral b \<Rightarrow> a = b | _ \<Rightarrow> False)"
| "Equals (FixedLiteral a) other = (case other of FixedLiteral b \<Rightarrow> a = b | _ \<Rightarrow> False)"
| "Equals (DateLiteral a) other = (case other of DateLiteral b \<Rightarrow> a = b | _ \<Rightarrow> False)"
| "Equals (TimeLiteral a) other = (case other of TimeLiteral b \<Rightarrow> a = b | _ \<Rightarrow> False)"
| "Equals (TimestampLiteral a) other = (case other of TimestampLiteral b \<Rightarrow> a = b | _ \<Rightarrow> False)"
| "Equals (TimestampTzLiteral a) other = (case other of TimestampTzLiteral b \<Rightarrow> a = b | _ \<Rightarrow> False)"
| "Equals (UUIDLiteral a) other = (case other of UUIDLiteral b \<Rightarrow> a = b | _ \<Rightarrow> False)"

text \<open>
  \<open>lit.Equals(v.orig)\<close> where \<open>v.orig\<close> is a \<open>Literal\<close> interface value that may be nil:
  a nil comparand is not equal to anything.
\<close>

fun EqualsOrig :: "literal \<Rightarrow> literal option \<Rightarrow> bool" where
  "EqualsOrig lit None = False"
| "EqualsOrig lit (Some m) = Equals lit m"

section \<open>The literal set of utils.go\<close>

text \<open>
  \<open>type literalSet map[any]struct{ orig Literal }\<close>. A key is either the 64-bit value of
  \<open>maphash.Bytes\<close> (for a Binary or Fixed literal) or the literal itself. Go compares
  the keys of a \<open>map[any]\<close> as interface values: two keys are the same key when they
  have the same dynamic type and their values are \<open>==\<close>, which for literals is what
  \<open>Equals\<close> computes; a \<open>uint64\<close> hash value is never the same key as a literal.
  Binary and Fixed literals are never stored as keys.
\<close>

datatype key = HashKey "64 word" | LitKey literal

fun key_eq :: "key \<Rightarrow> key \<Rightarrow> bool" where
  "key_eq (HashKey a) (HashKey b) = (a = b)"
| "key_eq (LitKey a) (LitKey b) = Equals a b"
| "key_eq _ _ = False"

text \<open>
  The map is the list of its entries; Go leaves the order of iteration open and nothing
  below depends on it. \<open>map_lookup\<close> is \<open>v, ok := m[k]\<close> and
  \<open>map_assign\<close> is \<open>m[k] = v\<close>: an entry whose key is the same key is overwritten (Go
  also stores the new key for interface keys), otherwise an entry is added. A NaN key is
  the same key as nothing, so assigning it always adds an entry and looking it up never
  succeeds.
\<close>

type_synonym literalSet = "(key \<times> literal option) list"

fun map_lookup :: "key \<Rightarrow> literalSet \<Rightarrow> literal option option" where
  "map_lookup k [] = None"
| "map_lookup k ((k', v) # m) = (if key_eq k' k then Some v else map_lookup k m)"

fun map_assign :: "key \<Rightarrow> literal option \<Rightarrow> literalSet \<Rightarrow> literalSet" where
  "map_assign k v [] = [(k, v)]"
| "map_assign k v ((k', v') # m) =
     (if key_eq k' k then (k, v) # m else (k', v') # map_assign k v m)"

text \<open>
  \<open>maphash.Bytes(lzseed, b)\<close> with the process-wide random seed is the parameter \<open>h\<close> of
  every operation: nothing is assumed about it.
\<close>

fun addliteral :: "(byte list \<Rightarrow> 64 word) \<Rightarrow> literal \<Rightarrow> literalSet \<Rightarrow> literalSet" where
  "addliteral h (FixedLiteral b) l = map_assign (HashKey (h b)) (Some (FixedLiteral b)) l"
| "addliteral h (BinaryLiteral b) l = map_assign (HashKey (h b)) (Some (BinaryLiteral b)) l"
| "addliteral h v l = map_assign (LitKey v) None l"

fun Add :: "(byte list \<Rightarrow> 64 word) \<Rightarrow> literal list \<Rightarrow> literalSet \<Rightarrow> literalSet" where
  "Add h [] l = l"
| "Add h (v # lits) l = Add h lits (addliteral h v l)"

definition newLiteralSet :: "(byte list \<Rightarrow> 64 word) \<Rightarrow> literal list \<Rightarrow> literalSet" where
  "newLiteralSet h vals = Add h vals []"

fun Contains :: "(byte list \<Rightarrow> 64 word) \<Rightarrow> literalSet \<Rightarrow> literal \<Rightarrow> bool" where
  "Contains h l (BinaryLiteral b) =
     (case map_lookup (HashKey (h b)) l of
        None \<Rightarrow> False
      | Some v \<Rightarrow> EqualsOrig (BinaryLiteral b) v)"
| "Contains h l (FixedLiteral b) =
     (case map_lookup (HashKey (h b)) l of
        None \<Rightarrow> False
      | Some v \<Rightarrow> EqualsOrig (FixedLiteral b) v)"
| "Contains h l lit = (map_lookup (LitKey lit) l \<noteq> None)"

text \<open>
  \<open>Members\<close> yields the key when the key is a literal and the stored \<open>orig\<close> otherwise.
  The result is a slice of \<open>Literal\<close> interface values, so an element may be nil.
\<close>

fun member_of :: "key \<times> literal option \<Rightarrow> literal option" where
  "member_of (LitKey k, v) = Some k"
| "member_of (HashKey x, v) = v"

definition Members :: "literalSet \<Rightarrow> literal option list" where
  "Members l = map member_of l"

definition Len :: "literalSet \<Rightarrow> nat" where
  "Len l = length l"

text \<open>A sequence of \<open>Add\<close> calls on a set.\<close>

fun AddCalls :: "(byte list \<Rightarrow> 64 word) \<Rightarrow> literal list list \<Rightarrow> literalSet \<Rightarrow> literalSet" where
  "AddCalls h [] l = l"
| "AddCalls h (lits # calls) l = AddCalls h calls (Add h lits l)"

text \<open>
  The key and the \<open>orig\<close> under which \<open>addliteral\<close> stores a literal.
\<close>

fun key_of :: "(byte list \<Rightarrow> 64 word) \<Rightarrow> literal \<Rightarrow> key" where
  "key_of h (FixedLiteral b) = HashKey (h b)"
| "key_of h (BinaryLiteral b) = HashKey (h b)"
| "key_of h v = LitKey v"

fun orig_of :: "literal \<Rightarrow> literal option" where
  "orig_of (FixedLiteral b) = Some (FixedLiteral b)"
| "orig_of (BinaryLiteral b) = Some (BinaryLiteral b)"
| "orig_of v = None"

text \<open>
  A literal passed to the constructor or to \<open>Add\<close> is displaced when a literal passed
  after it is stored under the same key: that assignment overwrites its entry.
  \<open>surviving\<close> keeps, of the literals passed in this order, those never displaced.
\<close>

fun surviving :: "(byte list \<Rightarrow> 64 word) \<Rightarrow> literal list \<Rightarrow> literal list" where
  "surviving h [] = []"
| "surviving h (x # xs) =
     (if list_ex (\<lambda>y. key_eq (key_of h x) (key_of h y)) xs then surviving h xs
      else x # surviving h xs)"

text \<open>A stand-in for the hash of one run of the program: FNV-1a on 64 bits.\<close>

definition fnv1a :: "byte list \<Rightarrow> 64 word" where
  "fnv1a bs = foldl (\<lambda>x b. (x XOR ucast b) * 0x100000001B3) 0xCBF29CE484222325 bs"

section \<open>Field accessors\<close>

text \<open>
  \<open>structLike\<close> is a row: \<open>Get(pos)\<close> returns the value of a column and, as the
  interface says, panics when \<open>pos\<close> is out of bounds. A column value (\<open>any\<close>) is nil,
  a row, or any other value. The panics of \<open>accessor.Get\<close> are the out-of-bounds access
  and the failed type assertion \<open>val.(structLike)\<close>.
\<close>

datatype 'a val = NilValue | Scalar 'a | Row "'a val list"

datatype panic = IndexOutOfRange int | NotStructLike

definition row_Get :: "'a val list \<Rightarrow> int \<Rightarrow> panic + 'a val" where
  "row_Get s p = (if 0 \<le> p \<and> p < int (length s) then Inr (s ! nat p) else Inl (IndexOutOfRange p))"

datatype accessor = Accessor (pos: int) (inner: "accessor option")

text \<open>
  The loop of \<open>accessor.Get\<close>, entered with the current accessor and the value read so
  far: it goes on while the value is not nil and the accessor has an inner accessor.
\<close>

fun descend :: "accessor \<Rightarrow> 'a val \<Rightarrow> panic + 'a val" where
  "descend (Accessor p None) v = Inr v"
| "descend (Accessor p (Some nxt)) NilValue = Inr NilValue"
| "descend (Accessor p (Some nxt)) (Row r) =
     (case row_Get r (pos nxt) of Inl e \<Rightarrow> Inl e | Inr v \<Rightarrow> descend nxt v)"
| "descend (Accessor p (Some nxt)) (Scalar x) = Inl NotStructLike"

definition Get :: "accessor \<Rightarrow> 'a val list \<Rightarrow> panic + 'a val" where
  "Get a s = (case row_Get s (pos a) of Inl e \<Rightarrow> Inl e | Inr v \<Rightarrow> descend a v)"

section \<open>Translation of a field list into an Avro schema\<close>

text \<open>
  Modelled from the spec: the logical types are declared outside utils.go. Each is a Go
  struct type: the twelve that the switch of \<open>nestedFieldToAvroSchema\<close> names, and every
  other one (decimal, fixed, struct, list, map) as \<open>OtherType\<close> with the text that its
  \<open>String()\<close> method returns.
\<close>

datatype struct_type =
    StringType | Int32Type | Int64Type | BinaryType | BooleanType | Float32Type
  | Float64Type | DateType | TimeType | TimestampType | TimestampTzType | UUIDType
  | OtherType string

text \<open>
  Modelled from the spec: the interface \<open>Type\<close> of a field holds either such a struct
  (\<open>Int64Type{}\<close>) or a pointer to one (\<open>&Int64Type{}\<close>); both have the methods of the
  interface, which are declared on the struct. The values that the package hands out for
  the primitive types (\<open>PrimitiveTypes.Int64\<close> and the like) are structs, not pointers.
\<close>

datatype iceberg_type = Value struct_type | Pointer struct_type

fun struct_of :: "iceberg_type \<Rightarrow> struct_type" where
  "struct_of (Value t) = t"
| "struct_of (Pointer t) = t"

text \<open>
  Modelled from the spec: \<open>Type.String()\<close>, the text that names a type in the error of
  the translation; it is the same for a struct and for a pointer to it.
\<close>

fun struct_String :: "struct_type \<Rightarrow> string" where
  "struct_String StringType = ''string''"
| "struct_String Int32Type = ''int''"
| "struct_String Int64Type = ''long''"
| "struct_String BinaryType = ''binary''"
| "struct_String BooleanType = ''boolean''"
| "struct_String Float32Type = ''float''"
| "struct_String Float64Type = ''double''"
| "struct_String DateType = ''date''"
| "struct_String TimeType = ''time''"
| "struct_String TimestampType = ''timestamp''"
| "struct_String TimestampTzType = ''timestamptz''"
| "struct_String UUIDType = ''uuid''"
| "struct_String (OtherType s) = s"

definition type_String :: "iceberg_type \<Rightarrow> string" where
  "type_String t = struct_String (struct_of t)"

text \<open>
  The logical types of the supported set: String, Int32, Int64, Binary, Boolean, Float32,
  Float64, Date, Time, Timestamp, TimestampTz and UUID.
\<close>

definition supported :: "iceberg_type \<Rightarrow> bool" where
  "supported t = (case struct_of t of OtherType s \<Rightarrow> False | _ \<Rightarrow> True)"

text \<open>
  Modelled from the spec: \<open>NestedField\<close>, a field of the input type tree,
  \<open>{field-id, name, logical-type, required, doc}\<close> (section 6 of the specification).
\<close>

record NestedField =
  ID :: int
  Name :: string
  Type :: iceberg_type
  Required :: bool
  Doc :: string

text \<open>
  The schemas of the Avro library (github.com/hamba/avro), as far as this translation
  builds them: primitive schemas with an optional logical type and properties, the fixed
  schema, the null schema, unions and the record with its fields. A property map
  (\<open>map[string]any\<close>) is a list of pairs.
\<close>

datatype avro_type =
  avro_String | avro_Int | avro_Long | avro_Bytes | avro_Boolean | avro_Float | avro_Double

datatype logical_type = avro_Date | avro_TimeMicros | avro_UUID

datatype prop_value = PBool bool | PInt int

datatype schema =
    PrimitiveSchema avro_type "logical_type option" "(string \<times> prop_value) list"
  | FixedSchema string string nat "logical_type option"
  | NullSchema
  | UnionSchema "schema list"
  | RecordSchema string string "avro_field list"
and avro_field =
    AvroField string schema string "(string \<times> prop_value) list"

datatype error = UnsupportedType string | InvalidName string | InvalidUnion | EncoderError string

text \<open>
  The constructors of the library that can fail. Which names the library accepts is the
  parameter \<open>valid\<close>. \<open>NewUnionSchema\<close> refuses a union inside a union and two branches
  with the same type name; this translation only ever gives it null and one schema that
  is neither a union nor null.
\<close>

fun is_union :: "schema \<Rightarrow> bool" where
  "is_union (UnionSchema ts) = True"
| "is_union _ = False"

fun schema_type_name :: "schema \<Rightarrow> string" where
  "schema_type_name (PrimitiveSchema avro_String lt ps) = ''string''"
| "schema_type_name (PrimitiveSchema avro_Int lt ps) = ''int''"
| "schema_type_name (PrimitiveSchema avro_Long lt ps) = ''long''"
| "schema_type_name (PrimitiveSchema avro_Bytes lt ps) = ''bytes''"
| "schema_type_name (PrimitiveSchema avro_Boolean lt ps) = ''boolean''"
| "schema_type_name (PrimitiveSchema avro_Float lt ps) = ''float''"
| "schema_type_name (PrimitiveSchema avro_Double lt ps) = ''double''"
| "schema_type_name (FixedSchema name ns n lt) = (if ns = [] then name else ns @ ''.'' @ name)"
| "schema_type_name NullSchema = ''null''"
| "schema_type_name (UnionSchema ts) = ''union''"
| "schema_type_name (RecordSchema name ns fs) = (if ns = [] then name else ns @ ''.'' @ name)"

definition NewUnionSchema :: "schema list \<Rightarrow> error + schema" where
  "NewUnionSchema ts =
     (if list_ex is_union ts then Inl InvalidUnion
      else if \<not> distinct (map schema_type_name ts) then Inl InvalidUnion
      else Inr (UnionSchema ts))"

definition NewFixedSchema ::
  "(string \<Rightarrow> bool) \<Rightarrow> string \<Rightarrow> string \<Rightarrow> nat \<Rightarrow> logical_type option \<Rightarrow> error + schema" where
  "NewFixedSchema valid name ns n lt =
     (if valid name then Inr (FixedSchema name ns n lt) else Inl (InvalidName name))"

definition NewField ::
  "(string \<Rightarrow> bool) \<Rightarrow> string \<Rightarrow> schema \<Rightarrow> string \<Rightarrow> (string \<times> prop_value) list \<Rightarrow> error + avro_field" where
  "NewField valid name sch doc props =
     (if valid name then Inr (AvroField name sch doc props) else Inl (InvalidName name))"

definition NewRecordSchema ::
  "(string \<Rightarrow> bool) \<Rightarrow> string \<Rightarrow> string \<Rightarrow> avro_field list \<Rightarrow> error + schema" where
  "NewRecordSchema valid name ns fs =
     (if valid name then Inr (RecordSchema name ns fs) else Inl (InvalidName name))"

text \<open>
  The switch of \<open>nestedFieldToAvroSchema\<close> on the dynamic type of \<open>f.Type\<close>. Every
  case names a pointer type (\<open>case *StringType:\<close>), so a struct value reaches the default
  case like any type that has no case.
\<close>

fun type_schema :: "(string \<Rightarrow> bool) \<Rightarrow> iceberg_type \<Rightarrow> error + schema" where
  "type_schema valid (Pointer StringType) = Inr (PrimitiveSchema avro_String None [])"
| "type_schema valid (Pointer Int32Type) = Inr (PrimitiveSchema avro_Int None [])"
| "type_schema valid (Pointer Int64Type) = Inr (PrimitiveSchema avro_Long None [])"
| "type_schema valid (Pointer BinaryType) = Inr (PrimitiveSchema avro_Bytes None [])"
| "type_schema valid (Pointer BooleanType) = Inr (PrimitiveSchema avro_Boolean None [])"
| "type_schema valid (Pointer Float32Type) = Inr (PrimitiveSchema avro_Float None [])"
| "type_schema valid (Pointer Float64Type) = Inr (PrimitiveSchema avro_Double None [])"
| "type_schema valid (Pointer DateType) = Inr (PrimitiveSchema avro_Int (Some avro_Date) [])"
| "type_schema valid (Pointer TimeType) =
     Inr (PrimitiveSchema avro_Long (Some avro_TimeMicros) [])"
| "type_schema valid (Pointer TimestampType) =
     Inr (PrimitiveSchema avro_Long (Some avro_TimeMicros) [(''adjust-to-utc'', PBool False)])"
| "type_schema valid (Pointer TimestampTzType) =
     Inr (PrimitiveSchema avro_Long (Some avro_TimeMicros) [(''adjust-to-utc'', PBool True)])"
| "type_schema valid (Pointer UUIDType) =
     NewFixedSchema valid ''uuid_fixed'' [] 16 (Some avro_UUID)"
| "type_schema valid t = Inl (UnsupportedType (type_String t))"

definition nestedFieldToAvroSchema :: "(string \<Rightarrow> bool) \<Rightarrow> NestedField \<Rightarrow> error + schema" where
  "nestedFieldToAvroSchema valid f =
     (case type_schema valid (Type f) of
        Inl err \<Rightarrow> Inl err
      | Inr sch \<Rightarrow>
          if \<not> Required f then NewUnionSchema [NullSchema, sch] else Inr sch)"

definition nestedFieldToAvroField :: "(string \<Rightarrow> bool) \<Rightarrow> NestedField \<Rightarrow> error + avro_field" where
  "nestedFieldToAvroField valid f =
     (case nestedFieldToAvroSchema valid f of
        Inl err \<Rightarrow> Inl err
      | Inr sch \<Rightarrow> NewField valid (Name f) sch (Doc f) [(''field-id'', PInt (ID f))])"

text \<open>The loop of \<open>structTypeToAvroPartitionSchema\<close>: \<open>aFields\<close> is the list built so far.\<close>

fun fields_loop ::
  "(string \<Rightarrow> bool) \<Rightarrow> NestedField list \<Rightarrow> avro_field list \<Rightarrow> error + avro_field list" where
  "fields_loop valid [] aFields = Inr aFields"
| "fields_loop valid (field # fs) aFields =
     (case nestedFieldToAvroField valid field of
        Inl err \<Rightarrow> Inl err
      | Inr aField \<Rightarrow> fields_loop valid fs (aFields @ [aField]))"

definition structTypeToAvroPartitionSchema ::
  "(string \<Rightarrow> bool) \<Rightarrow> NestedField list \<Rightarrow> error + schema" where
  "structTypeToAvroPartitionSchema valid st =
     (case fields_loop valid st [] of
        Inl err \<Rightarrow> Inl err
      | Inr aFields \<Rightarrow> NewRecordSchema valid ''r102'' [] aFields)"




section \<open>Writing records to an object container file\<close>

text \<open>
  \<open>avroEncode\<close> drives the encoder of the Avro library (package \<open>ocf\<close>), which owns the
  destination writer. The library is a parameter: a record of its three operations on
  an encoder state \<open>'e\<close>, each returning its error (\<open>None\<close> is Go's nil error).
  \<open>avroEncode\<close> returns its own error together with the calls it made to the encoder,
  in order, so that what happened to the encoder on each path can be stated.
\<close>

datatype codec = Deflate

datatype 'v call = CallNewEncoder schema "(string \<times> string) list" codec | CallEncode 'v | CallClose

record ('e, 'v) ocf =
  NewEncoderWithSchema :: "schema \<Rightarrow> (string \<times> string) list \<Rightarrow> codec \<Rightarrow> error + 'e"
  Encode :: "'e \<Rightarrow> 'v \<Rightarrow> error option \<times> 'e"
  Close :: "'e \<Rightarrow> error option \<times> 'e"

text \<open>\<open>strconv.Itoa\<close>: the decimal text of an integer.\<close>

fun nat_digits :: "nat \<Rightarrow> string" where
  "nat_digits n =
     (if n < 10 then [''0123456789'' ! n]
      else nat_digits (n div 10) @ [''0123456789'' ! (n mod 10)])"

declare nat_digits.simps [simp del]

definition Itoa :: "int \<Rightarrow> string" where
  "Itoa i = (if i < 0 then CHR ''-'' # nat_digits (nat (- i)) else nat_digits (nat i))"

text \<open>
  The loop over \<open>vals\<close>: it returns at the first record whose \<open>Encode\<close> fails. The result
  is the error, the encoder state and the calls made.
\<close>

fun encode_loop :: "('e, 'v) ocf \<Rightarrow> 'e \<Rightarrow> 'v list \<Rightarrow> error option \<times> 'e \<times> 'v call list" where
  "encode_loop lib enc [] = (None, enc, [])"
| "encode_loop lib enc (file # vals) =
     (case Encode lib enc file of
        (Some err, enc') \<Rightarrow> (Some err, enc', [CallEncode file])
      | (None, enc') \<Rightarrow>
          (case encode_loop lib enc' vals of
             (r, enc'', calls) \<Rightarrow> (r, enc'', CallEncode file # calls)))"

definition avroEncode ::
  "('e, 'v) ocf \<Rightarrow> schema \<Rightarrow> int \<Rightarrow> 'v list \<Rightarrow> error option \<times> 'v call list" where
  "avroEncode lib sch version vals =
     (let md = [(''format-version'', Itoa version)] in
      case NewEncoderWithSchema lib sch md Deflate of
        Inl err \<Rightarrow> (Some err, [CallNewEncoder sch md Deflate])
      | Inr enc \<Rightarrow>
          (case encode_loop lib enc vals of
             (Some err, enc', calls) \<Rightarrow> (Some err, CallNewEncoder sch md Deflate # calls)
           | (None, enc', calls) \<Rightarrow>
               (fst (Close lib enc'), CallNewEncoder sch md Deflate # calls @ [CallClose])))"

text \<open>
  A sample encoder for the concrete runs below: it keeps the records it has accepted and
  the flushed output, and it rejects negative numbers.
\<close>

definition sample_ocf :: "(int list \<times> int list, int) ocf" where
  "sample_ocf =
     \<lparr> NewEncoderWithSchema = (\<lambda>sch md c. Inr ([], [])),
       Encode = (\<lambda>(buf, out) v.
          if v < 0 then (Some (EncoderError ''negative''), (buf, out))
          else (None, (buf @ [v], out))),
       Close = (\<lambda>(buf, out). (None, ([], out @ buf))) \<rparr>"

section \<open>The invariant of a literal set\<close>

text \<open>
  Every set that the constructor and \<open>Add\<close> build keeps two facts: no two entries have
  the same key, and an entry under a hash key holds a Binary or Fixed literal with that
  hash while an entry under a literal key holds no \<open>orig\<close> and is not Binary or Fixed.
\<close>

definition is_bytes :: "literal \<Rightarrow> bool" where
  "is_bytes v = (case v of BinaryLiteral b \<Rightarrow> True | FixedLiteral b \<Rightarrow> True | _ \<Rightarrow> False)"

fun entry_ok :: "(byte list \<Rightarrow> 64 word) \<Rightarrow> key \<times> literal option \<Rightarrow> bool" where
  "entry_ok h (HashKey x, v) =
     (case v of
        Some (BinaryLiteral b) \<Rightarrow> x = h b
      | Some (FixedLiteral b) \<Rightarrow> x = h b
      | _ \<Rightarrow> False)"
| "entry_ok h (LitKey k, v) =
     (v = None \<and> (case k of BinaryLiteral b \<Rightarrow> False | FixedLiteral b \<Rightarrow> False | _ \<Rightarrow> True))"

fun keys_apart :: "literalSet \<Rightarrow> bool" where
  "keys_apart [] = True"
| "keys_apart ((k, v) # m) = ((\<forall>e\<in>set m. \<not> key_eq k (fst e)) \<and> keys_apart m)"

definition set_ok :: "(byte list \<Rightarrow> 64 word) \<Rightarrow> literalSet \<Rightarrow> bool" where
  "set_ok h l = (keys_apart l \<and> (\<forall>e\<in>set l. entry_ok h e))"

section \<open>Equality of literals and keys\<close>

lemma float32_eq_sym: "float32_eq a b = float32_eq b a"
  by (auto simp: float32_eq_def)

lemma float64_eq_sym: "float64_eq a b = float64_eq b a"
  by (auto simp: float64_eq_def)

lemma float32_eq_trans: "float32_eq a b \<Longrightarrow> float32_eq b c \<Longrightarrow> float32_eq a c"
  by (auto simp: float32_eq_def)

lemma float64_eq_trans: "float64_eq a b \<Longrightarrow> float64_eq b c \<Longrightarrow> float64_eq a c"
  by (auto simp: float64_eq_def)

lemma Equals_sym: "Equals a b = Equals b a"
  by (cases a; cases b) (auto simp: float32_eq_sym float64_eq_sym)

lemma Equals_trans: "Equals a b \<Longrightarrow> Equals b c \<Longrightarrow> Equals a c"
  by (cases a; cases b; cases c) (auto intro: float32_eq_trans float64_eq_trans)

lemma key_eq_sym: "key_eq a b = key_eq b a"
  by (cases a; cases b) (auto simp: Equals_sym)

lemma key_eq_trans: "key_eq a b \<Longrightarrow> key_eq b c \<Longrightarrow> key_eq a c"
  by (cases a; cases b; cases c) (auto intro: Equals_trans)

section \<open>Lookup and assignment\<close>

lemma map_assign_subset: "set (map_assign k v m) \<subseteq> insert (k, v) (set m)"
  by (induction m) (auto split: if_splits)

lemma map_assign_length: "length (map_assign k v m) = (if map_lookup k m = None then Suc (length m) else length m)"
  by (induction m) (auto split: if_splits)

lemma keys_apart_assign: "keys_apart m \<Longrightarrow> keys_apart (map_assign k v m)"
proof (induction m)
  case Nil
  then show ?case by simp
next
  case (Cons e m)
  obtain k' v' where e: "e = (k', v')" by (cases e)
  show ?case
  proof (cases "key_eq k' k")
    case True
    have "\<not> key_eq k (fst x)" if "x \<in> set m" for x
    proof
      assume "key_eq k (fst x)"
      with True have "key_eq k' (fst x)" by (rule key_eq_trans)
      with Cons.prems that e show False by auto
    qed
    with Cons.prems e True show ?thesis by simp
  next
    case False
    have "\<not> key_eq k' (fst x)" if "x \<in> set (map_assign k v m)" for x
    proof -
      from that map_assign_subset have "x = (k, v) \<or> x \<in> set m" by blast
      with False Cons.prems e show ?thesis by auto
    qed
    with Cons e False show ?thesis by simp
  qed
qed

lemma map_lookup_None: "(map_lookup k m = None) = (\<forall>e\<in>set m. \<not> key_eq (fst e) k)"
  by (induction m) (auto split: if_splits)

lemma map_lookup_Some:
  "keys_apart m \<Longrightarrow> (map_lookup k m = Some v) = (\<exists>k'. (k', v) \<in> set m \<and> key_eq k' k)"
proof (induction m)
  case Nil
  then show ?case by simp
next
  case (Cons e m)
  obtain k1 v1 where e: "e = (k1, v1)" by (cases e)
  show ?case
  proof (cases "key_eq k1 k")
    case True
    have "v = v1" if "(k', v) \<in> set m" "key_eq k' k" for k'
    proof -
      from that(2) have "key_eq k k'" by (simp add: key_eq_sym)
      with True have "key_eq k1 k'" by (rule key_eq_trans)
      with Cons.prems e that(1) show ?thesis by force
    qed
    with True e show ?thesis by auto
  next
    case False
    with Cons e show ?thesis by auto
  qed
qed

lemma map_lookup_assign_same:
  "key_eq k k \<Longrightarrow> map_lookup k (map_assign k v m) = Some v"
  by (induction m) auto

lemma entry_ok_addliteral:
  "\<forall>e\<in>set l. entry_ok h e \<Longrightarrow> \<forall>e\<in>set (addliteral h v l). entry_ok h e"
  using map_assign_subset by (cases v) fastforce+

lemma set_ok_addliteral: "set_ok h l \<Longrightarrow> set_ok h (addliteral h v l)"
  unfolding set_ok_def using entry_ok_addliteral [of l h v]
  by (cases v) (simp_all add: keys_apart_assign)

lemma set_ok_Add: "set_ok h l \<Longrightarrow> set_ok h (Add h lits l)"
  by (induction lits arbitrary: l) (simp_all add: set_ok_addliteral)

lemma set_ok_AddCalls: "set_ok h l \<Longrightarrow> set_ok h (AddCalls h calls l)"
  by (induction calls arbitrary: l) (simp_all add: set_ok_Add)

lemma set_ok_newLiteralSet: "set_ok h (newLiteralSet h vals)"
  unfolding newLiteralSet_def by (rule set_ok_Add) (simp add: set_ok_def)

lemma Members_iff:
  "(Some m \<in> set (Members l)) =
     ((\<exists>v. (LitKey m, v) \<in> set l) \<or> (\<exists>x. (HashKey x, Some m) \<in> set l))"
proof -
  have "(Some m = member_of e) = ((\<exists>v. e = (LitKey m, v)) \<or> (\<exists>x. e = (HashKey x, Some m)))" for e
    by (cases e rule: member_of.cases) auto
  then show ?thesis unfolding Members_def by (auto simp: image_iff)
qed

section \<open>Membership\<close>

lemma entry_ok_Hash:
  "entry_ok h (HashKey x, v) =
     (\<exists>b. x = h b \<and> (v = Some (BinaryLiteral b) \<or> v = Some (FixedLiteral b)))"
  by (auto split: option.splits literal.splits)

lemma EqualsOrig_Binary: "EqualsOrig (BinaryLiteral b) v = (v = Some (BinaryLiteral b))"
proof (cases v)
  case None
  then show ?thesis by simp
next
  case (Some m)
  then show ?thesis by (cases m) auto
qed

lemma EqualsOrig_Fixed: "EqualsOrig (FixedLiteral b) v = (v = Some (FixedLiteral b))"
proof (cases v)
  case None
  then show ?thesis by simp
next
  case (Some m)
  then show ?thesis by (cases m) auto
qed

lemma Contains_Binary:
  assumes "set_ok h l"
  shows "Contains h l (BinaryLiteral b) = ((HashKey (h b), Some (BinaryLiteral b)) \<in> set l)"
proof -
  from assms have ka: "keys_apart l" by (simp add: set_ok_def)
  have "Contains h l (BinaryLiteral b) =
        (map_lookup (HashKey (h b)) l = Some (Some (BinaryLiteral b)))"
    by (simp add: EqualsOrig_Binary del: EqualsOrig.simps split: option.splits)
  also have "\<dots> = (\<exists>k'. (k', Some (BinaryLiteral b)) \<in> set l \<and> key_eq k' (HashKey (h b)))"
    by (rule map_lookup_Some [OF ka])
  also have "\<dots> = ((HashKey (h b), Some (BinaryLiteral b)) \<in> set l)"
  proof -
    have "key_eq k' (HashKey y) = (k' = HashKey y)" for k' y
      by (cases k') auto
    then show ?thesis by auto
  qed
  finally show ?thesis .
qed

lemma Contains_Fixed:
  assumes "set_ok h l"
  shows "Contains h l (FixedLiteral b) = ((HashKey (h b), Some (FixedLiteral b)) \<in> set l)"
proof -
  from assms have ka: "keys_apart l" by (simp add: set_ok_def)
  have "Contains h l (FixedLiteral b) =
        (map_lookup (HashKey (h b)) l = Some (Some (FixedLiteral b)))"
    by (simp add: EqualsOrig_Fixed del: EqualsOrig.simps split: option.splits)
  also have "\<dots> = (\<exists>k'. (k', Some (FixedLiteral b)) \<in> set l \<and> key_eq k' (HashKey (h b)))"
    by (rule map_lookup_Some [OF ka])
  also have "\<dots> = ((HashKey (h b), Some (FixedLiteral b)) \<in> set l)"
  proof -
    have "key_eq k' (HashKey y) = (k' = HashKey y)" for k' y
      by (cases k') auto
    then show ?thesis by auto
  qed
  finally show ?thesis .
qed

lemma Contains_other:
  "\<not> is_bytes lit \<Longrightarrow> Contains h l lit = (\<exists>k v. (LitKey k, v) \<in> set l \<and> Equals k lit)"
proof -
  assume nb: "\<not> is_bytes lit"
  then have "Contains h l lit = (map_lookup (LitKey lit) l \<noteq> None)"
    by (cases lit) (simp_all add: is_bytes_def)
  also have "\<dots> = (\<exists>e\<in>set l. key_eq (fst e) (LitKey lit))"
    by (simp add: map_lookup_None)
  also have "\<dots> = (\<exists>k v. (LitKey k, v) \<in> set l \<and> Equals k lit)"
  proof -
    have "key_eq k' (LitKey y) = (\<exists>k. k' = LitKey k \<and> Equals k y)" for k' y
      by (cases k') auto
    then show ?thesis by force
  qed
  finally show ?thesis .
qed

lemma Equals_Binary_iff: "Equals m (BinaryLiteral b) = (m = BinaryLiteral b)"
  by (cases m) auto

lemma Equals_Fixed_iff: "Equals m (FixedLiteral b) = (m = FixedLiteral b)"
  by (cases m) auto

lemma Equals_is_bytes: "Equals m lit \<Longrightarrow> is_bytes m = is_bytes lit"
  by (cases m; cases lit) (auto simp: is_bytes_def)

lemma entry_ok_Lit: "entry_ok h (LitKey k, v) = (v = None \<and> \<not> is_bytes k)"
  by (auto simp: is_bytes_def split: literal.splits)

lemma Contains_iff_member:
  assumes "set_ok h l"
  shows "Contains h l lit = (\<exists>m. Some m \<in> set (Members l) \<and> Equals m lit)"
proof -
  from assms have ok: "\<And>e. e \<in> set l \<Longrightarrow> entry_ok h e" by (simp add: set_ok_def)
  show ?thesis
  proof (cases "is_bytes lit")
    case True
    then consider b where "lit = BinaryLiteral b" | b where "lit = FixedLiteral b"
      by (cases lit) (auto simp: is_bytes_def)
    then show ?thesis
    proof cases
      case 1
      have "(\<exists>v. (LitKey lit, v) \<in> set l) = False"
        using ok [of "(LitKey lit, _)"] 1 by (auto simp: entry_ok_Lit is_bytes_def)
      moreover have "(\<exists>x. (HashKey x, Some lit) \<in> set l) = ((HashKey (h b), Some lit) \<in> set l)"
        using ok [of "(HashKey _, Some lit)"] 1 by (auto simp: entry_ok_Hash)
      ultimately show ?thesis
        using 1 assms by (simp add: Contains_Binary Equals_Binary_iff Members_iff del: Contains.simps)
    next
      case 2
      have "(\<exists>v. (LitKey lit, v) \<in> set l) = False"
        using ok [of "(LitKey lit, _)"] 2 by (auto simp: entry_ok_Lit is_bytes_def)
      moreover have "(\<exists>x. (HashKey x, Some lit) \<in> set l) = ((HashKey (h b), Some lit) \<in> set l)"
        using ok [of "(HashKey _, Some lit)"] 2 by (auto simp: entry_ok_Hash)
      ultimately show ?thesis
        using 2 assms by (simp add: Contains_Fixed Equals_Fixed_iff Members_iff del: Contains.simps)
    qed
  next
    case False
    have "(\<exists>m. Some m \<in> set (Members l) \<and> Equals m lit) =
          (\<exists>m. (\<exists>v. (LitKey m, v) \<in> set l) \<and> Equals m lit)"
    proof -
      have "\<not> Equals m lit" if "(HashKey x, Some m) \<in> set l" for x m
      proof -
        from ok [OF that] have "is_bytes m" by (auto simp: is_bytes_def split: literal.splits)
        with False Equals_is_bytes show ?thesis by blast
      qed
      then show ?thesis by (auto simp: Members_iff)
    qed
    with False show ?thesis by (auto simp: Contains_other)
  qed
qed

section \<open>The members are the literals passed and never displaced\<close>

lemma addliteral_assign: "addliteral h v l = map_assign (key_of h v) (orig_of v) l"
  by (cases v) simp_all

lemma member_of_entry: "member_of (key_of h v, orig_of v) = Some v"
  by (cases v) simp_all

lemma Add_append: "Add h (xs @ ys) l = Add h ys (Add h xs l)"
  by (induction xs arbitrary: l) simp_all

lemma AddCalls_concat: "AddCalls h calls l = Add h (concat calls) l"
  by (induction calls arbitrary: l) (simp_all add: Add_append)

lemma surviving_snoc:
  "surviving h (xs @ [x]) =
     filter (\<lambda>y. \<not> key_eq (key_of h y) (key_of h x)) (surviving h xs) @ [x]"
  by (induction xs) (auto simp: list_ex_iff)

lemma mset_map_assign:
  "keys_apart l \<Longrightarrow>
     mset (map_assign k v l) = filter_mset (\<lambda>e. \<not> key_eq (fst e) k) (mset l) + {#(k, v)#}"
proof (induction l)
  case Nil
  then show ?case by simp
next
  case (Cons e l)
  obtain k' v' where e: "e = (k', v')" by (cases e)
  show ?case
  proof (cases "key_eq k' k")
    case True
    have "\<not> key_eq (fst x) k" if "x \<in> set l" for x
    proof
      assume "key_eq (fst x) k"
      then have "key_eq k (fst x)" by (simp add: key_eq_sym)
      with True have "key_eq k' (fst x)" by (rule key_eq_trans)
      with Cons.prems that e show False by auto
    qed
    then have "filter_mset (\<lambda>e. \<not> key_eq (fst e) k) (mset l) = mset l"
      by (simp add: filter_mset_eq_conv)
    with True e show ?thesis by simp
  next
    case False
    with Cons e show ?thesis by simp
  qed
qed

lemma mset_Add_surviving:
  "mset (Add h xs []) = image_mset (\<lambda>v. (key_of h v, orig_of v)) (mset (surviving h xs))"
proof (induction xs rule: rev_induct)
  case Nil
  then show ?case by simp
next
  case (snoc x xs)
  have ok: "set_ok h (Add h xs [])"
    by (rule set_ok_Add) (simp add: set_ok_def)
  then have ka: "keys_apart (Add h xs [])" by (simp add: set_ok_def)
  have "mset (Add h (xs @ [x]) []) =
        filter_mset (\<lambda>e. \<not> key_eq (fst e) (key_of h x)) (mset (Add h xs []))
          + {#(key_of h x, orig_of x)#}"
    by (simp add: Add_append addliteral_assign mset_map_assign [OF ka])
  also have "\<dots> = image_mset (\<lambda>v. (key_of h v, orig_of v))
                   (mset (filter (\<lambda>y. \<not> key_eq (key_of h y) (key_of h x)) (surviving h xs) @ [x]))"
    by (simp add: snoc.IH filter_mset_image_mset o_def)
  finally show ?case by (simp only: surviving_snoc)
qed

lemma mset_Members_surviving:
  "mset (Members (AddCalls h calls (newLiteralSet h vals)))
     = mset (map Some (surviving h (vals @ concat calls)))"
proof -
  have "AddCalls h calls (newLiteralSet h vals) = Add h (vals @ concat calls) []"
    by (simp add: AddCalls_concat newLiteralSet_def Add_append)
  then show ?thesis
    by (simp add: Members_def mset_Add_surviving image_mset.compositionality o_def member_of_entry)
qed

text \<open>
  C1. On every literal set, built by the constructor from \<open>vals\<close> and by any sequence
  \<open>calls\<close> of \<open>Add\<close> calls, the members that \<open>Members()\<close> lists are exactly the literals
  passed to the constructor or to \<open>Add\<close> and never displaced, each once, and
  \<open>Contains(lit)\<close> is true exactly when one of these members \<open>m\<close> satisfies
  \<open>m.Equals(lit)\<close>, whatever the hash function is. In particular a set seeded with one
  literal contains it, unless it is a NaN float, which is \<open>Equals\<close>-equal to nothing.
\<close>

theorem Contains_iff_some_member_Equals:
  "mset (Members (AddCalls h calls (newLiteralSet h vals)))
     = mset (map Some (surviving h (vals @ concat calls))) \<and>
   Contains h (AddCalls h calls (newLiteralSet h vals)) lit
     = (\<exists>m. Some m \<in> set (Members (AddCalls h calls (newLiteralSet h vals))) \<and> Equals m lit) \<and>
   Contains h (AddCalls h calls (newLiteralSet h vals)) lit
     = (\<exists>m. m \<in> set (surviving h (vals @ concat calls)) \<and> Equals m lit) \<and>
   Contains h (newLiteralSet h [a]) a = Equals a a"
proof -
  have one: "Contains h (newLiteralSet h [a]) a = Equals a a"
    by (cases a) (simp_all add: newLiteralSet_def)
  define L where "L = AddCalls h calls (newLiteralSet h vals)"
  have ok: "set_ok h L"
    unfolding L_def by (rule set_ok_AddCalls) (rule set_ok_newLiteralSet)
  have m: "mset (Members L) = mset (map Some (surviving h (vals @ concat calls)))"
    unfolding L_def by (rule mset_Members_surviving)
  then have "set (Members L) = Some ` set (surviving h (vals @ concat calls))"
    by (metis mset_eq_setD set_map)
  then have s: "(Some x \<in> set (Members L)) = (x \<in> set (surviving h (vals @ concat calls)))" for x
    by auto
  have c: "Contains h L lit = (\<exists>m. Some m \<in> set (Members L) \<and> Equals m lit)"
    using ok by (rule Contains_iff_member)
  from m c s one show ?thesis unfolding L_def by simp
qed

theorem Contains_iff_some_member_Equals_witness:
  "surviving fnv1a ([FixedLiteral [1], Int32Literal 7] @ concat [[BinaryLiteral [1]], [Int32Literal 7]])
     = [BinaryLiteral [1], Int32Literal 7] \<and>
   Contains fnv1a (newLiteralSet fnv1a [StringLiteral ''a'']) (StringLiteral ''a'') \<and>
   Contains fnv1a (AddCalls fnv1a [[BinaryLiteral [1]], [Int32Literal 7]]
       (newLiteralSet fnv1a [FixedLiteral [1], Int32Literal 7])) (Int32Literal 7) \<and>
   Contains fnv1a (AddCalls fnv1a [[BinaryLiteral [1]], [Int32Literal 7]]
       (newLiteralSet fnv1a [FixedLiteral [1], Int32Literal 7])) (BinaryLiteral [1]) \<and>
   \<not> Contains fnv1a (AddCalls fnv1a [[BinaryLiteral [1]], [Int32Literal 7]]
       (newLiteralSet fnv1a [FixedLiteral [1], Int32Literal 7])) (FixedLiteral [1]) \<and>
   \<not> Contains fnv1a (AddCalls fnv1a [[BinaryLiteral [1]], [Int32Literal 7]]
       (newLiteralSet fnv1a [FixedLiteral [1], Int32Literal 7])) (Int32Literal 8)"
proof -
  have s1: "surviving fnv1a ([FixedLiteral [1], Int32Literal 7] @ concat [[BinaryLiteral [1]], [Int32Literal 7]])
     = [BinaryLiteral [1], Int32Literal 7]"
    by simp
  have s2: "surviving fnv1a ([StringLiteral ''a''] @ concat []) = [StringLiteral ''a'']"
    by simp
  have c1: "Contains fnv1a (AddCalls fnv1a [[BinaryLiteral [1]], [Int32Literal 7]]
              (newLiteralSet fnv1a [FixedLiteral [1], Int32Literal 7])) lit
            = (\<exists>m. m \<in> set [BinaryLiteral [1], Int32Literal 7] \<and> Equals m lit)" for lit
    using Contains_iff_some_member_Equals [of fnv1a "[[BinaryLiteral [1]], [Int32Literal 7]]"
        "[FixedLiteral [1], Int32Literal 7]" lit]
    unfolding s1 by blast
  have c2: "Contains fnv1a (AddCalls fnv1a [] (newLiteralSet fnv1a [StringLiteral ''a''])) lit
            = (\<exists>m. m \<in> set [StringLiteral ''a''] \<and> Equals m lit)" for lit
    using Contains_iff_some_member_Equals [of fnv1a "[]" "[StringLiteral ''a'']" lit]
    unfolding s2 by blast
  have "Contains fnv1a (newLiteralSet fnv1a [StringLiteral ''a'']) (StringLiteral ''a'')"
    using c2 [of "StringLiteral ''a''"] by auto
  moreover have "Contains fnv1a (AddCalls fnv1a [[BinaryLiteral [1]], [Int32Literal 7]]
       (newLiteralSet fnv1a [FixedLiteral [1], Int32Literal 7])) (Int32Literal 7)"
    unfolding c1 by auto
  moreover have "Contains fnv1a (AddCalls fnv1a [[BinaryLiteral [1]], [Int32Literal 7]]
       (newLiteralSet fnv1a [FixedLiteral [1], Int32Literal 7])) (BinaryLiteral [1])"
    unfolding c1 by auto
  moreover have "\<not> Contains fnv1a (AddCalls fnv1a [[BinaryLiteral [1]], [Int32Literal 7]]
       (newLiteralSet fnv1a [FixedLiteral [1], Int32Literal 7])) (FixedLiteral [1])"
    unfolding c1 by auto
  moreover have "\<not> Contains fnv1a (AddCalls fnv1a [[BinaryLiteral [1]], [Int32Literal 7]]
       (newLiteralSet fnv1a [FixedLiteral [1], Int32Literal 7])) (Int32Literal 8)"
    unfolding c1 by auto
  ultimately show ?thesis using s1 by blast
qed

section \<open>Adding to a literal set\<close>

lemma Len_addliteral_present:
  assumes "set_ok h l" "Contains h l b"
  shows "Len (addliteral h b l) = Len l"
proof -
  from assms(2) have "\<exists>k v. addliteral h b l = map_assign k v l \<and> map_lookup k l \<noteq> None"
    by (cases b) (auto split: option.splits)
  then show ?thesis by (auto simp: Len_def map_assign_length)
qed

lemma Contains_addliteral_self:
  assumes "Equals b b"
  shows "Contains h (addliteral h b l) b"
proof (cases "is_bytes b")
  case True
  then show ?thesis
    by (cases b) (auto simp: is_bytes_def map_lookup_assign_same)
next
  case False
  with assms show ?thesis
    by (cases b) (auto simp: is_bytes_def map_lookup_assign_same)
qed

lemma Equals_refl_right: "Equals m b \<Longrightarrow> Equals b b"
  using Equals_sym Equals_trans by blast

text \<open>
  C6. \<open>Add\<close> is idempotent for every kind: when a member of the set is \<open>Equals\<close>-equal to
  \<open>b\<close>, adding \<open>b\<close> leaves \<open>Len()\<close> unchanged and \<open>Contains(b)\<close> is true afterwards. Two
  Binary literals, or two Fixed literals, with the same bytes are one member: adding the
  second leaves \<open>Len()\<close> as it was after the first and \<open>Contains\<close> on it is true.
\<close>

theorem Add_Equals_equal_keeps_Len:
  "(Some m \<in> set (Members (AddCalls h calls (newLiteralSet h vals))) \<and> Equals m b \<longrightarrow>
      Len (Add h [b] (AddCalls h calls (newLiteralSet h vals)))
        = Len (AddCalls h calls (newLiteralSet h vals)) \<and>
      Contains h (Add h [b] (AddCalls h calls (newLiteralSet h vals))) b) \<and>
   Len (Add h [BinaryLiteral bs] (Add h [BinaryLiteral bs] (AddCalls h calls (newLiteralSet h vals))))
     = Len (Add h [BinaryLiteral bs] (AddCalls h calls (newLiteralSet h vals))) \<and>
   Contains h (Add h [BinaryLiteral bs] (Add h [BinaryLiteral bs] (AddCalls h calls (newLiteralSet h vals))))
     (BinaryLiteral bs) \<and>
   Len (Add h [FixedLiteral bs] (Add h [FixedLiteral bs] (AddCalls h calls (newLiteralSet h vals))))
     = Len (Add h [FixedLiteral bs] (AddCalls h calls (newLiteralSet h vals))) \<and>
   Contains h (Add h [FixedLiteral bs] (Add h [FixedLiteral bs] (AddCalls h calls (newLiteralSet h vals))))
     (FixedLiteral bs)"
proof -
  define L where "L = AddCalls h calls (newLiteralSet h vals)"
  have ok: "set_ok h L"
    unfolding L_def by (rule set_ok_AddCalls) (rule set_ok_newLiteralSet)
  have gen: "Len (Add h [b] L') = Len L' \<and> Contains h (Add h [b] L') b"
    if "set_ok h L'" "Some m \<in> set (Members L')" "Equals m b" for L' m b
  proof -
    from that have "Contains h L' b" by (auto simp: Contains_iff_member)
    with that(1) have "Len (addliteral h b L') = Len L'" by (rule Len_addliteral_present)
    moreover from that(3) have "Equals b b" by (rule Equals_refl_right)
    then have "Contains h (addliteral h b L') b" by (rule Contains_addliteral_self)
    ultimately show ?thesis by simp
  qed
  have again: "Len (Add h [b] (Add h [b] L)) = Len (Add h [b] L) \<and>
               Contains h (Add h [b] (Add h [b] L)) b" if "Equals b b" for b
  proof -
    have ok': "set_ok h (Add h [b] L)" using ok by (rule set_ok_Add)
    from that have "Contains h (Add h [b] L) b" by (simp add: Contains_addliteral_self)
    with ok' obtain m where "Some m \<in> set (Members (Add h [b] L))" "Equals m b"
      by (auto simp: Contains_iff_member)
    with ok' show ?thesis by (rule gen)
  qed
  have "Equals (BinaryLiteral bs) (BinaryLiteral bs)" "Equals (FixedLiteral bs) (FixedLiteral bs)"
    by simp_all
  with gen [OF ok, of m b] again [of "BinaryLiteral bs"] again [of "FixedLiteral bs"]
  show ?thesis unfolding L_def by blast
qed

theorem Add_Equals_equal_keeps_Len_witness:
  "Some (Int32Literal 7) \<in> set (Members (AddCalls fnv1a [[StringLiteral ''a'']] (newLiteralSet fnv1a [Int32Literal 7]))) \<and>
   Equals (Int32Literal 7) (Int32Literal 7) \<and>
   Len (Add fnv1a [Int32Literal 7] (AddCalls fnv1a [[StringLiteral ''a'']] (newLiteralSet fnv1a [Int32Literal 7])))
     = Len (AddCalls fnv1a [[StringLiteral ''a'']] (newLiteralSet fnv1a [Int32Literal 7])) \<and>
   Contains fnv1a (Add fnv1a [Int32Literal 7] (AddCalls fnv1a [[StringLiteral ''a'']] (newLiteralSet fnv1a [Int32Literal 7])))
     (Int32Literal 7)"
proof -
  have m: "Some (Int32Literal 7) \<in> set (Members (AddCalls fnv1a [[StringLiteral ''a'']] (newLiteralSet fnv1a [Int32Literal 7])))"
    by (simp add: newLiteralSet_def Members_def)
  have e: "Equals (Int32Literal 7) (Int32Literal 7)" by simp
  show ?thesis
    using m e Add_Equals_equal_keeps_Len [of "Int32Literal 7" fnv1a "[[StringLiteral ''a'']]"
        "[Int32Literal 7]" "Int32Literal 7" "[]"]
    by blast
qed

text \<open>
  C2. \<open>Add\<close> should never remove a member that is not \<open>Equals\<close>-equal to what is added.
  Here it does: a Fixed literal and a Binary literal with the same bytes are not
  \<open>Equals\<close>-equal, yet they have the same hash key, whatever the hash function is, and
  adding the second overwrites the first. The set that held \<open>Fixed [1]\<close> holds only
  \<open>Binary [1]\<close> after \<open>Add(Binary [1])\<close>.
\<close>

theorem Add_displaces_same_hash:
  "Contains h (newLiteralSet h [FixedLiteral [1]]) (FixedLiteral [1]) \<and>
   \<not> Equals (BinaryLiteral [1]) (FixedLiteral [1]) \<and>
   Members (Add h [BinaryLiteral [1]] (newLiteralSet h [FixedLiteral [1]])) = [Some (BinaryLiteral [1])] \<and>
   \<not> Contains h (Add h [BinaryLiteral [1]] (newLiteralSet h [FixedLiteral [1]])) (FixedLiteral [1])"
  by (simp add: newLiteralSet_def Members_def)

section \<open>The members of a literal set\<close>

text \<open>
  A NaN float literal is stored under a key that no lookup finds: it is listed by
  \<open>Members\<close> and counted by \<open>Len\<close>, and \<open>Contains\<close> is false on it.
\<close>

theorem NaN_member_not_contained:
  "Members (newLiteralSet fnv1a [Float64Literal 0x7FF8000000000000])
     = [Some (Float64Literal 0x7FF8000000000000)] \<and>
   Len (newLiteralSet fnv1a [Float64Literal 0x7FF8000000000000]) = 1 \<and>
   \<not> Contains fnv1a (newLiteralSet fnv1a [Float64Literal 0x7FF8000000000000])
       (Float64Literal 0x7FF8000000000000)"
  by (simp add: newLiteralSet_def Members_def Len_def float64_eq_def isNaN64_def)

text \<open>
  C10, amended. \<open>Members()\<close> has exactly \<open>Len()\<close> elements, none of them nil, and every
  element that is \<open>Equals\<close>-equal to itself (every literal but a NaN float) satisfies
  \<open>Contains\<close>, whether it was stored under its natural value or under its hash.
\<close>

theorem Members_Len_Contains:
  "length (Members (AddCalls h calls (newLiteralSet h vals)))
     = Len (AddCalls h calls (newLiteralSet h vals)) \<and>
   (\<forall>e\<in>set (Members (AddCalls h calls (newLiteralSet h vals))).
      \<exists>m. e = Some m \<and> (Equals m m \<longrightarrow> Contains h (AddCalls h calls (newLiteralSet h vals)) m))"
proof -
  define L where "L = AddCalls h calls (newLiteralSet h vals)"
  have ok: "set_ok h L"
    unfolding L_def by (rule set_ok_AddCalls) (rule set_ok_newLiteralSet)
  have some: "\<exists>m. member_of e = Some m" if "e \<in> set L" for e
  proof -
    from ok that have "entry_ok h e" by (simp add: set_ok_def)
    then show ?thesis
      by (cases e rule: member_of.cases) (auto split: option.splits)
  qed
  have "\<exists>m. e = Some m \<and> (Equals m m \<longrightarrow> Contains h L m)" if "e \<in> set (Members L)" for e
  proof -
    from that some obtain m where m: "e = Some m" by (auto simp: Members_def)
    from that m have "Equals m m \<Longrightarrow> Contains h L m"
      using Contains_iff_member [OF ok, of m] by blast
    with m show ?thesis by blast
  qed
  then show ?thesis unfolding L_def [symmetric] by (simp add: Members_def Len_def)
qed

theorem Members_Len_Contains_witness:
  "length (Members (AddCalls fnv1a [[Int32Literal 7]] (newLiteralSet fnv1a [BinaryLiteral [1]])))
     = Len (AddCalls fnv1a [[Int32Literal 7]] (newLiteralSet fnv1a [BinaryLiteral [1]])) \<and>
   Some (BinaryLiteral [1]) \<in> set (Members (AddCalls fnv1a [[Int32Literal 7]] (newLiteralSet fnv1a [BinaryLiteral [1]]))) \<and>
   Equals (BinaryLiteral [1]) (BinaryLiteral [1]) \<and>
   Contains fnv1a (AddCalls fnv1a [[Int32Literal 7]] (newLiteralSet fnv1a [BinaryLiteral [1]])) (BinaryLiteral [1])"
proof -
  have m: "Some (BinaryLiteral [1]) \<in> set (Members (AddCalls fnv1a [[Int32Literal 7]] (newLiteralSet fnv1a [BinaryLiteral [1]])))"
    by (simp add: newLiteralSet_def Members_def)
  have e: "Equals (BinaryLiteral [1]) (BinaryLiteral [1])" by simp
  show ?thesis
    using m e Members_Len_Contains [of fnv1a "[[Int32Literal 7]]" "[BinaryLiteral [1]]"]
    by blast
qed

section \<open>Reading through an accessor\<close>

text \<open>
  With a continuation, a value that is neither nil nor a row is not returned: the call
  panics.
\<close>

theorem Get_scalar_with_continuation_panics:
  "row_Get [Scalar (5::int)] 0 = Inr (Scalar 5) \<and>
   Get (Accessor 0 (Some (Accessor 0 None))) [Scalar (5::int)] = Inl NotStructLike"
  by (simp add: Get_def row_Get_def)

text \<open>
  C5, amended. For an accessor with a continuation: when the value read at the current
  position is a structured row, \<open>Get\<close> goes on in it with the inner accessor; when it is
  nil, the result is nil and not an error; when it is any other value, the type assertion
  panics; an out-of-bounds position panics.
\<close>

theorem Get_with_continuation:
  "Get (Accessor p (Some nxt)) s =
     (case row_Get s p of
        Inl e \<Rightarrow> Inl e
      | Inr NilValue \<Rightarrow> Inr NilValue
      | Inr (Row r) \<Rightarrow> Get nxt r
      | Inr (Scalar x) \<Rightarrow> Inl NotStructLike)"
  by (simp add: Get_def split: sum.splits val.splits)

text \<open>
  C8. A two-level accessor (outer position \<open>p\<close>, inner position \<open>q\<close>) on a row whose
  column \<open>p\<close> holds a row returns what \<open>row.Get(p)\<close> followed by \<open>.Get(q)\<close> returns.
\<close>

theorem two_level_Get:
  "row_Get s p = Inr (Row r) \<Longrightarrow> Get (Accessor p (Some (Accessor q None))) s = row_Get r q"
  by (simp add: Get_def split: sum.splits)

theorem two_level_Get_witness:
  "row_Get [Scalar (1::int), Row [Scalar 2, Scalar 3]] 1 = Inr (Row [Scalar 2, Scalar 3]) \<and>
   Get (Accessor 1 (Some (Accessor 0 None))) [Scalar (1::int), Row [Scalar 2, Scalar 3]]
     = row_Get [Scalar 2, Scalar 3] 0 \<and>
   row_Get [Scalar (2::int), Scalar 3] 0 = Inr (Scalar 2)"
proof -
  have h: "row_Get [Scalar (1::int), Row [Scalar 2, Scalar 3]] 1 = Inr (Row [Scalar 2, Scalar 3])"
    by (simp add: row_Get_def)
  show ?thesis using h two_level_Get [OF h, of 0] by (simp add: row_Get_def)
qed

section \<open>The translated schema\<close>

lemma type_schema_shape:
  "type_schema valid t = Inr base \<Longrightarrow> \<not> is_union base \<and> base \<noteq> NullSchema \<and>
     schema_type_name base \<noteq> ''null''"
  by (cases "(valid, t)" rule: type_schema.cases) (auto simp: NewFixedSchema_def split: if_splits)

lemma NewUnionSchema_null_first:
  "\<not> is_union base \<Longrightarrow> schema_type_name base \<noteq> ''null'' \<Longrightarrow>
     NewUnionSchema [NullSchema, base] = Inr (UnionSchema [NullSchema, base])"
  by (auto simp: NewUnionSchema_def)

lemma nestedFieldToAvroSchema_eq:
  "nestedFieldToAvroSchema valid f =
     (case type_schema valid (Type f) of
        Inl err \<Rightarrow> Inl err
      | Inr base \<Rightarrow> Inr (if Required f then base else UnionSchema [NullSchema, base]))"
  by (auto simp: nestedFieldToAvroSchema_def NewUnionSchema_null_first
        dest: type_schema_shape split: sum.splits)

lemma type_schema_Value: "type_schema valid (Value k) = Inl (UnsupportedType (struct_String k))"
  by (simp add: type_String_def)

lemma type_schema_Pointer_supported:
  "supported (Pointer k) \<Longrightarrow> valid ''uuid_fixed'' \<Longrightarrow> \<exists>base. type_schema valid (Pointer k) = Inr base"
  by (cases k) (auto simp: supported_def NewFixedSchema_def)

text \<open>
  What the translation does for the types that the switch matches, pointers to the type
  structs: a required field gets the schema of its type, a field that is not required the
  union of null and that schema, null first.
\<close>

lemma pointer_typed_field_wrapped_null_first:
  "(nestedFieldToAvroSchema valid f = Inr s \<longrightarrow>
      (\<exists>base. type_schema valid (Type f) = Inr base \<and> \<not> is_union base \<and> base \<noteq> NullSchema \<and>
         s = (if Required f then base else UnionSchema [NullSchema, base]))) \<and>
   (Type f = Pointer k \<and> supported (Pointer k) \<and> valid ''uuid_fixed'' \<longrightarrow>
      (\<exists>s. nestedFieldToAvroSchema valid f = Inr s)) \<and>
   (valid ''r102'' \<and> valid n1 \<and> valid n2 \<longrightarrow>
      structTypeToAvroPartitionSchema valid
        [\<lparr>ID = 1, Name = n1, Type = Pointer Int64Type, Required = True, Doc = d1\<rparr>,
         \<lparr>ID = 2, Name = n2, Type = Pointer StringType, Required = False, Doc = d2\<rparr>]
      = Inr (RecordSchema ''r102'' []
          [AvroField n1 (PrimitiveSchema avro_Long None []) d1 [(''field-id'', PInt 1)],
           AvroField n2 (UnionSchema [NullSchema, PrimitiveSchema avro_String None []]) d2
             [(''field-id'', PInt 2)]]))"
proof (intro conjI impI)
  assume "nestedFieldToAvroSchema valid f = Inr s"
  then show "\<exists>base. type_schema valid (Type f) = Inr base \<and> \<not> is_union base \<and> base \<noteq> NullSchema \<and>
         s = (if Required f then base else UnionSchema [NullSchema, base])"
    by (auto simp: nestedFieldToAvroSchema_eq dest: type_schema_shape split: sum.splits)
next
  assume "Type f = Pointer k \<and> supported (Pointer k) \<and> valid ''uuid_fixed''"
  then obtain base where "type_schema valid (Type f) = Inr base"
    using type_schema_Pointer_supported [of k valid] by auto
  then show "\<exists>s. nestedFieldToAvroSchema valid f = Inr s"
    by (simp add: nestedFieldToAvroSchema_eq)
next
  assume "valid ''r102'' \<and> valid n1 \<and> valid n2"
  then show "structTypeToAvroPartitionSchema valid
        [\<lparr>ID = 1, Name = n1, Type = Pointer Int64Type, Required = True, Doc = d1\<rparr>,
         \<lparr>ID = 2, Name = n2, Type = Pointer StringType, Required = False, Doc = d2\<rparr>]
      = Inr (RecordSchema ''r102'' []
          [AvroField n1 (PrimitiveSchema avro_Long None []) d1 [(''field-id'', PInt 1)],
           AvroField n2 (UnionSchema [NullSchema, PrimitiveSchema avro_String None []]) d2
             [(''field-id'', PInt 2)]])"
    by (simp add: structTypeToAvroPartitionSchema_def nestedFieldToAvroField_def
          nestedFieldToAvroSchema_eq NewField_def NewRecordSchema_def)
qed

text \<open>
  C4. A required field should be translated to the schema of its type and a field that is
  not required to the two-branch union of null and that schema, and the field list
  (id 1, Int64, required), (id 2, String, optional) should give a record with field 1
  plain and field 2 such a union. With the types as the package hands them out, struct
  values, it does not: no case of the switch matches a struct, each of the two fields is
  refused as an unsupported type, and the list gives the error that names long and no
  schema.
\<close>

theorem struct_typed_fields_not_translated:
  "nestedFieldToAvroSchema valid \<lparr>ID = 1, Name = n1, Type = Value Int64Type, Required = True, Doc = d1\<rparr>
     = Inl (UnsupportedType ''long'') \<and>
   nestedFieldToAvroSchema valid \<lparr>ID = 2, Name = n2, Type = Value StringType, Required = False, Doc = d2\<rparr>
     = Inl (UnsupportedType ''string'') \<and>
   structTypeToAvroPartitionSchema valid
     [\<lparr>ID = 1, Name = n1, Type = Value Int64Type, Required = True, Doc = d1\<rparr>,
      \<lparr>ID = 2, Name = n2, Type = Value StringType, Required = False, Doc = d2\<rparr>]
     = Inl (UnsupportedType ''long'')"
  by (simp add: structTypeToAvroPartitionSchema_def nestedFieldToAvroField_def
        nestedFieldToAvroSchema_eq type_String_def)

text \<open>
  For pointers to the two timestamp structs the schemas are a long with the time-micros
  logical type, wrapped alike, and differ only in the property adjust-to-utc.
\<close>

lemma pointer_typed_timestamps_differ_in_adjust_to_utc:
  "nestedFieldToAvroSchema valid (f\<lparr>Type := Pointer TimestampType\<rparr>) =
     Inr (if Required f
          then PrimitiveSchema avro_Long (Some avro_TimeMicros) [(''adjust-to-utc'', PBool False)]
          else UnionSchema [NullSchema,
                 PrimitiveSchema avro_Long (Some avro_TimeMicros) [(''adjust-to-utc'', PBool False)]]) \<and>
   nestedFieldToAvroSchema valid (f\<lparr>Type := Pointer TimestampTzType\<rparr>) =
     Inr (if Required f
          then PrimitiveSchema avro_Long (Some avro_TimeMicros) [(''adjust-to-utc'', PBool True)]
          else UnionSchema [NullSchema,
                 PrimitiveSchema avro_Long (Some avro_TimeMicros) [(''adjust-to-utc'', PBool True)]]) \<and>
   nestedFieldToAvroSchema valid (f\<lparr>Type := Pointer TimestampType\<rparr>)
     \<noteq> nestedFieldToAvroSchema valid (f\<lparr>Type := Pointer TimestampTzType\<rparr>)"
  by (simp add: nestedFieldToAvroSchema_eq)

text \<open>
  C9. Two fields that differ only in their type, Timestamp and TimestampTz, should be
  translated to two schemas that differ only in the property adjust-to-utc. With the
  types as the package hands them out, struct values, neither is translated: both fall
  to the default case of the switch and give the unsupported-type error, so there are no
  two schemas to compare.
\<close>

theorem struct_typed_timestamps_not_translated:
  "nestedFieldToAvroSchema valid (f\<lparr>Type := Value TimestampType\<rparr>)
     = Inl (UnsupportedType ''timestamp'') \<and>
   nestedFieldToAvroSchema valid (f\<lparr>Type := Value TimestampTzType\<rparr>)
     = Inl (UnsupportedType ''timestamptz'') \<and>
   nestedFieldToAvroField valid (f\<lparr>Type := Value TimestampType\<rparr>)
     = Inl (UnsupportedType ''timestamp'') \<and>
   nestedFieldToAvroField valid (f\<lparr>Type := Value TimestampTzType\<rparr>)
     = Inl (UnsupportedType ''timestamptz'')"
  by (simp add: nestedFieldToAvroField_def nestedFieldToAvroSchema_eq type_String_def)







section \<open>The calls of the encoder\<close>

lemma encode_loop_ok_append:
  "encode_loop lib enc pre = (None, enc1, c1) \<Longrightarrow>
     c1 = map CallEncode pre \<and>
     encode_loop lib enc (pre @ rest) =
       (case encode_loop lib enc1 rest of (r, e, c) \<Rightarrow> (r, e, map CallEncode pre @ c))"
proof (induction pre arbitrary: enc c1)
  case Nil
  then show ?case by (auto split: prod.splits)
next
  case (Cons v pre)
  then show ?case
    by (auto split: prod.splits option.splits)
qed

text \<open>
  C3, amended. Once the encoder is created, a record whose \<open>Encode\<close> fails aborts the
  stream: its error is returned, no later record is encoded and \<open>Close\<close> is not called.
  When every record is encoded, \<open>Close\<close> is the last call and its result is returned.
\<close>

theorem avroEncode_paths:
  assumes "NewEncoderWithSchema lib sch [(''format-version'', Itoa version)] Deflate = Inr enc"
  shows "(encode_loop lib enc pre = (None, enc1, c1) \<and> Encode lib enc1 bad = (Some err, enc2) \<longrightarrow>
            avroEncode lib sch version (pre @ bad # post) =
              (Some err,
               CallNewEncoder sch [(''format-version'', Itoa version)] Deflate
                 # map CallEncode pre @ [CallEncode bad])) \<and>
         (encode_loop lib enc vals = (None, enc3, c3) \<longrightarrow>
            avroEncode lib sch version vals =
              (fst (Close lib enc3),
               CallNewEncoder sch [(''format-version'', Itoa version)] Deflate
                 # map CallEncode vals @ [CallClose]))"
proof (intro conjI impI)
  assume a: "encode_loop lib enc pre = (None, enc1, c1) \<and> Encode lib enc1 bad = (Some err, enc2)"
  then have "encode_loop lib enc (pre @ bad # post) = (Some err, enc2, map CallEncode pre @ [CallEncode bad])"
    using encode_loop_ok_append [of lib enc pre enc1 c1 "bad # post"] by simp
  with assms show "avroEncode lib sch version (pre @ bad # post) =
              (Some err,
               CallNewEncoder sch [(''format-version'', Itoa version)] Deflate
                 # map CallEncode pre @ [CallEncode bad])"
    by (simp add: avroEncode_def)
next
  assume a: "encode_loop lib enc vals = (None, enc3, c3)"
  then have "c3 = map CallEncode vals"
    using encode_loop_ok_append [of lib enc vals enc3 c3 "[]"] by simp
  with a assms show "avroEncode lib sch version vals =
              (fst (Close lib enc3),
               CallNewEncoder sch [(''format-version'', Itoa version)] Deflate
                 # map CallEncode vals @ [CallClose])"
    by (simp add: avroEncode_def)
qed

lemma Itoa_2: "Itoa 2 = ''2''"
  by (simp add: Itoa_def nat_digits.simps)

theorem avroEncode_paths_witness:
  "NewEncoderWithSchema sample_ocf (RecordSchema ''r102'' [] []) [(''format-version'', Itoa 2)] Deflate
     = Inr ([], []) \<and>
   encode_loop sample_ocf ([], []) [1] = (None, ([1], []), [CallEncode 1]) \<and>
   Encode sample_ocf ([1], []) (- 1) = (Some (EncoderError ''negative''), ([1], [])) \<and>
   avroEncode sample_ocf (RecordSchema ''r102'' [] []) 2 ([1] @ - 1 # [3]) =
     (Some (EncoderError ''negative''),
      CallNewEncoder (RecordSchema ''r102'' [] []) [(''format-version'', Itoa 2)] Deflate
        # map CallEncode [1] @ [CallEncode (- 1)]) \<and>
   encode_loop sample_ocf ([], []) [1, 3] = (None, ([1, 3], []), [CallEncode 1, CallEncode 3]) \<and>
   avroEncode sample_ocf (RecordSchema ''r102'' [] []) 2 [1, 3] =
     (fst (Close sample_ocf ([1, 3], [])),
      CallNewEncoder (RecordSchema ''r102'' [] []) [(''format-version'', Itoa 2)] Deflate
        # map CallEncode [1, 3] @ [CallClose])"
proof -
  have h: "NewEncoderWithSchema sample_ocf (RecordSchema ''r102'' [] []) [(''format-version'', Itoa 2)] Deflate
     = Inr ([], [])"
    by (simp add: sample_ocf_def)
  have l1: "encode_loop sample_ocf ([], []) [1] = (None, ([1], []), [CallEncode 1])"
    by (simp add: sample_ocf_def)
  have l2: "Encode sample_ocf ([1], []) (- 1) = (Some (EncoderError ''negative''), ([1], []))"
    by (simp add: sample_ocf_def)
  have l3: "encode_loop sample_ocf ([], []) [1, 3] = (None, ([1, 3], []), [CallEncode 1, CallEncode 3])"
    by (simp add: sample_ocf_def)
  show ?thesis
    using h l1 l2 l3
      avroEncode_paths [OF h, of "[1]" "([1], [])" "[CallEncode 1]" "- 1"
        "EncoderError ''negative''" "([1], [])" "[3]" "[1, 3]" "([1, 3], [])"
        "[CallEncode 1, CallEncode 3]"]
    by simp
qed

text \<open>
  On the failure path the encoder is not closed: the calls end with the \<open>Encode\<close> that
  failed.
\<close>

theorem avroEncode_failure_skips_Close:
  "avroEncode sample_ocf (RecordSchema ''r102'' [] []) 2 [1, - 1, 3] =
     (Some (EncoderError ''negative''),
      [CallNewEncoder (RecordSchema ''r102'' [] []) [(''format-version'', ''2'')] Deflate,
       CallEncode 1, CallEncode (- 1)])"
  by (simp add: avroEncode_def sample_ocf_def Itoa_2)

end
